theory Spec2Isabelle
  imports Complex_Main "HOL-Library.Log_Nat"
begin

section \<open>Python strings\<close>

text \<open>
  A Python \<open>str\<close> is modelled as a \<open>string\<close> whose characters are the code points
  below 256. \<open>str.lower()\<close> maps \<open>A\<close>..\<open>Z\<close> and the upper-case letters of the
  Latin-1 block (192..222 without the multiplication sign 215) to the code point 32
  above, and leaves every other character alone.
\<close>

definition lower_char :: "char \<Rightarrow> char" where
  "lower_char c = (let n = (of_char c :: nat) in
     if (65 \<le> n \<and> n \<le> 90) \<or> (192 \<le> n \<and> n \<le> 222 \<and> n \<noteq> 215)
     then char_of (n + 32) else c)"

definition lower :: "string \<Rightarrow> string" where
  "lower s = map lower_char s"

text \<open>\<open>s.startswith(w)\<close> and the substring test \<open>w in s\<close>.\<close>

fun starts_with :: "string \<Rightarrow> string \<Rightarrow> bool" where
  "starts_with [] s = True"
| "starts_with (a # w) [] = False"
| "starts_with (a # w) (c # s) = (a = c \<and> starts_with w s)"

fun contains :: "string \<Rightarrow> string \<Rightarrow> bool" where
  "contains w [] = (w = [])"
| "contains w (c # s) = (starts_with w (c # s) \<or> contains w s)"

text \<open>\<open>any(word in s for word in words)\<close>.\<close>

definition any_word_in :: "string list \<Rightarrow> string \<Rightarrow> bool" where
  "any_word_in ws s = list_ex (\<lambda>w. contains w s) ws"

section \<open>Case-number prefix tables (uscis\_tracker)\<close>

text \<open>
  \<open>CaseStatusAPI._extract_form_type\<close>: the table is looked up with the first three
  characters; \<open>form_mapping.get(prefix, prefix)\<close> returns the prefix itself when it is
  not a key. The key \<open>G-\<close> has two characters, so no three-character prefix equals it.
\<close>

definition form_mapping :: "(string \<times> string) list" where
  "form_mapping =
    [(''YSC'', ''I-140''), (''WAC'', ''I-140''), (''LIN'', ''I-140''),
     (''SRC'', ''I-140''), (''MSC'', ''I-140''), (''IOE'', ''I-140''),
     (''G-'', ''I-140'')]"

definition extract_form_type :: "string \<Rightarrow> string" where
  "extract_form_type case_number =
    (if 3 \<le> length case_number then
       (let prefix = take 3 case_number in
        case map_of form_mapping prefix of Some v \<Rightarrow> v | None \<Rightarrow> prefix)
     else ''Unknown'')"

text \<open>\<open>EmailNotificationService._extract_service_center_from_case_number\<close>.\<close>

definition service_center_mapping :: "(string \<times> string) list" where
  "service_center_mapping =
    [(''YSC'', ''Vermont Service Center''), (''WAC'', ''California Service Center''),
     (''LIN'', ''Nebraska Service Center''), (''SRC'', ''Texas Service Center''),
     (''MSC'', ''Missouri Service Center''), (''IOE'', ''Electronic Filing'')]"

definition extract_service_center_from_case_number :: "string \<Rightarrow> string" where
  "extract_service_center_from_case_number case_number =
    (if 3 \<le> length case_number then
       (let prefix = take 3 case_number in
        case map_of service_center_mapping prefix of
          Some v \<Rightarrow> v | None \<Rightarrow> ''Unknown Service Center'')
     else ''Unknown Service Center'')"

text \<open>\<open>CaseStatusAPI._determine_case_type\<close>, on a form type that is a string.\<close>

definition case_mapping :: "(string \<times> string) list" where
  "case_mapping =
    [(''I-140'', ''Immigrant Petition for Alien Worker''),
     (''I-485'', ''Application to Register Permanent Residence''),
     (''I-765'', ''Application for Employment Authorization''),
     (''I-131'', ''Application for Travel Document''),
     (''I-129'', ''Petition for Nonimmigrant Worker'')]"

definition determine_case_type :: "string \<Rightarrow> string" where
  "determine_case_type form_type =
    (case map_of case_mapping form_type of Some v \<Rightarrow> v | None \<Rightarrow> ''Unknown Case Type'')"

section \<open>Accent colour of the e-mail body\<close>

text \<open>
  The colour chosen at the head of \<open>_create_email_body\<close>, for a status that is a string.
  \<open>status_color_uscis\<close> is the method of \<open>src/uscis_tracker/notifier.py\<close>,
  \<open>status_color_perm\<close> the one of the PERM tracker's \<open>notifier.py\<close>, which has three
  branches only.
\<close>

definition status_color_uscis :: "string \<Rightarrow> string" where
  "status_color_uscis current_status =
    (if contains ''approved'' (lower current_status) then ''#28a745''
     else if contains ''denied'' (lower current_status) then ''#dc3545''
     else if contains ''rfe'' (lower current_status)
           \<or> contains ''request for evidence'' (lower current_status) then ''#fd7e14''
     else if contains ''pending'' (lower current_status) then ''#ffc107''
     else if contains ''received'' (lower current_status) then ''#6f42c1''
     else ''#007bff'')"

definition status_color_perm :: "string \<Rightarrow> string" where
  "status_color_perm current_status =
    (if contains ''approved'' (lower current_status) then ''#28a745''
     else if contains ''denied'' (lower current_status) then ''#dc3545''
     else if contains ''pending'' (lower current_status) then ''#ffc107''
     else ''#007bff'')"

section \<open>Python errors and floats\<close>

text \<open>
  Exceptions are values: a computation that may raise has type \<open>py_error + 'a\<close>.
\<close>

datatype py_error = OverflowError | ZeroDivisionError | ValueError | UnboundLocalError
  | AttributeError | TypeError

text \<open>
  A Python \<open>float\<close> is an IEEE binary64 number. Its value is modelled as the rational
  it denotes, and every operation rounds the exact result to the nearest double, ties to
  even (\<open>RN\<close>): 53 bits of precision, least exponent \<open>-1022\<close> (subnormals included).
  \<open>RN\<close> rounds with an unbounded upper exponent; a result of magnitude \<open>2^1024\<close> or
  more is what the hardware returns as an infinity (\<open>is_inf\<close>). The two zeros are
  identified. \<open>ilog2 x\<close> is the binary exponent of a positive \<open>x\<close>.
\<close>

definition ilog2 :: "rat \<Rightarrow> int" where
  "ilog2 x = (if 1 \<le> x then bitlen \<lfloor>x\<rfloor> - 1 else - bitlen (\<lceil>1 / x\<rceil> - 1))"

definition round_half_even :: "rat \<Rightarrow> int" where
  "round_half_even x = (let f = \<lfloor>x\<rfloor>; d = x - of_int f in
     if d < 1 / 2 then f else if 1 / 2 < d then f + 1
     else if even f then f else f + 1)"

definition RN_pos :: "rat \<Rightarrow> rat" where
  "RN_pos x = (let e = max (ilog2 x) (- 1022); q = 2 powi (e - 52)
               in of_int (round_half_even (x / q)) * q)"

definition RN :: "rat \<Rightarrow> rat" where
  "RN x = (if x = 0 then 0 else if 0 < x then RN_pos x else - RN_pos (- x))"

definition is_inf :: "rat \<Rightarrow> bool" where
  "is_inf v = (2 powi 1024 \<le> \<bar>v\<bar>)"

text \<open>A decimal literal of the source, such as \<open>0.2\<close>, is the double nearest to it.\<close>

definition lit :: "rat \<Rightarrow> rat" where
  "lit d = RN d"

text \<open>
  \<open>a / b\<close> on two \<open>int\<close>s is correctly rounded, and raises where the quotient is too
  large for a float or the divisor is zero. \<open>int * float\<close> first converts the \<open>int\<close>
  (\<open>float_of_int\<close>, which raises where it is too large). \<open>math.ceil\<close> raises on an
  infinity. \<open>round(v, 1)\<close> rounds the exact value of \<open>v\<close> to one decimal, ties to even,
  and returns the double nearest to that decimal.
\<close>

definition int_truediv :: "int \<Rightarrow> int \<Rightarrow> py_error + rat" where
  "int_truediv a b =
    (if b = 0 then Inl ZeroDivisionError
     else (let y = RN (of_int a / of_int b) in
           if is_inf y then Inl OverflowError else Inr y))"

definition float_of_int :: "int \<Rightarrow> py_error + rat" where
  "float_of_int n = (let y = RN (of_int n) in if is_inf y then Inl OverflowError else Inr y)"

definition math_ceil :: "rat \<Rightarrow> py_error + int" where
  "math_ceil v = (if is_inf v then Inl OverflowError else Inr \<lceil>v\<rceil>)"

definition py_round1 :: "rat \<Rightarrow> rat" where
  "py_round1 v = RN (of_int (round_half_even (v * 10)) / 10)"

section \<open>Dates\<close>

text \<open>
  A date is its proleptic Gregorian ordinal (\<open>date.toordinal()\<close>): day 1 is 0001-01-01
  and the last day, 9999-12-31, is \<open>MAXORDINAL\<close>. The time of day of
  \<open>datetime.now()\<close> is left out: it changes neither the date reached by adding whole
  days nor the \<open>.days\<close> of the difference to a midnight. \<open>weekday\<close> is Python's:
  Monday is 0, Saturday 5, Sunday 6.
\<close>

definition MAXORDINAL :: int where
  "MAXORDINAL = 3652059"

definition weekday :: "int \<Rightarrow> int" where
  "weekday d = (d + 6) mod 7"

definition is_leap :: "int \<Rightarrow> bool" where
  "is_leap y = (y mod 4 = 0 \<and> (y mod 100 \<noteq> 0 \<or> y mod 400 = 0))"

definition days_in_month :: "int \<Rightarrow> int \<Rightarrow> int" where
  "days_in_month y m =
    (if m = 2 then (if is_leap y then 29 else 28)
     else if m = 4 \<or> m = 6 \<or> m = 9 \<or> m = 11 then 30 else 31)"

definition days_before_year :: "int \<Rightarrow> int" where
  "days_before_year y = (y - 1) * 365 + (y - 1) div 4 - (y - 1) div 100 + (y - 1) div 400"

definition days_before_month :: "int \<Rightarrow> int \<Rightarrow> int" where
  "days_before_month y m =
    [0, 31, 59, 90, 120, 151, 181, 212, 243, 273, 304, 334] ! nat (m - 1)
    + (if 2 < m \<and> is_leap y then 1 else 0)"

definition ymd2ord :: "int \<Rightarrow> int \<Rightarrow> int \<Rightarrow> int" where
  "ymd2ord y m d = days_before_year y + days_before_month y m + d"

text \<open>
  \<open>d + timedelta(days=n)\<close>: the \<open>timedelta\<close> constructor raises beyond 999999999
  days, and the sum raises when it leaves the calendar.
\<close>

definition date_add :: "int \<Rightarrow> int \<Rightarrow> py_error + int" where
  "date_add d n =
    (if 999999999 < \<bar>n\<bar> then Inl OverflowError
     else if 1 \<le> d + n \<and> d + n \<le> MAXORDINAL then Inr (d + n)
     else Inl OverflowError)"

text \<open>
  \<open>datetime.strptime(s, '%Y-%m-%d')\<close>: four digits, a hyphen, the month as the first
  of \<open>1[0-2]\<close>, \<open>0[1-9]\<close>, \<open>[1-9]\<close> that matches, a hyphen, the day as the first of
  \<open>3[01]\<close>, \<open>[12]\d\<close>, \<open>0[1-9]\<close>, \<open>[1-9]\<close>, \<open> [1-9]\<close> that matches, and nothing
  after it; then the date must exist. Every failure is a \<open>ValueError\<close>.
\<close>

definition is_digit :: "char \<Rightarrow> bool" where
  "is_digit c = (48 \<le> (of_char c :: nat) \<and> (of_char c :: nat) \<le> 57)"

definition digit_val :: "char \<Rightarrow> int" where
  "digit_val c = int (of_char c) - 48"

fun parse_month :: "string \<Rightarrow> (int \<times> string) option" where
  "parse_month (a # b # s) =
    (if a = CHR ''1'' \<and> (b = CHR ''0'' \<or> b = CHR ''1'' \<or> b = CHR ''2'')
       then Some (10 + digit_val b, s)
     else if a = CHR ''0'' \<and> is_digit b \<and> b \<noteq> CHR ''0'' then Some (digit_val b, s)
     else if is_digit a \<and> a \<noteq> CHR ''0'' then Some (digit_val a, b # s)
     else None)"
| "parse_month [a] = (if is_digit a \<and> a \<noteq> CHR ''0'' then Some (digit_val a, []) else None)"
| "parse_month [] = None"

fun parse_day :: "string \<Rightarrow> (int \<times> string) option" where
  "parse_day (a # b # s) =
    (if a = CHR ''3'' \<and> (b = CHR ''0'' \<or> b = CHR ''1'') then Some (30 + digit_val b, s)
     else if (a = CHR ''1'' \<or> a = CHR ''2'') \<and> is_digit b
       then Some (10 * digit_val a + digit_val b, s)
     else if a = CHR ''0'' \<and> is_digit b \<and> b \<noteq> CHR ''0'' then Some (digit_val b, s)
     else if is_digit a \<and> a \<noteq> CHR ''0'' then Some (digit_val a, b # s)
     else if a = CHR '' '' \<and> is_digit b \<and> b \<noteq> CHR ''0'' then Some (digit_val b, s)
     else None)"
| "parse_day [a] = (if is_digit a \<and> a \<noteq> CHR ''0'' then Some (digit_val a, []) else None)"
| "parse_day [] = None"

definition strptime :: "string \<Rightarrow> py_error + int" where
  "strptime s =
    (case s of
       y1 # y2 # y3 # y4 # h # rest \<Rightarrow>
         (if is_digit y1 \<and> is_digit y2 \<and> is_digit y3 \<and> is_digit y4 \<and> h = CHR ''-'' then
            (case parse_month rest of
               None \<Rightarrow> Inl ValueError
             | Some (m, rest1) \<Rightarrow>
                 (case rest1 of
                    h1 # rest2 \<Rightarrow>
                      (if h1 = CHR ''-'' then
                         (case parse_day rest2 of
                            None \<Rightarrow> Inl ValueError
                          | Some (d, rest3) \<Rightarrow>
                              (let y = 1000 * digit_val y1 + 100 * digit_val y2
                                       + 10 * digit_val y3 + digit_val y4 in
                               if rest3 = [] \<and> 1 \<le> y \<and> d \<le> days_in_month y m
                               then Inr (ymd2ord y m d) else Inl ValueError))
                       else Inl ValueError)
                  | [] \<Rightarrow> Inl ValueError))
          else Inl ValueError)
     | _ \<Rightarrow> Inl ValueError)"

section \<open>The ETA estimator (estimate.py)\<close>

text \<open>
  The constants of \<open>config.py\<close> that the estimator and the resolver read; each is an
  \<open>int\<close> taken from the environment.
\<close>

record config =
  DEFAULT_PROCESSING_RATE :: int
  MOCK_POSITION :: int
  MOCK_TOTAL_APPLICATIONS :: int

text \<open>
  The dictionary returned by \<open>calculate_eta\<close>. The two dates are kept as dates (the
  source stores their \<open>strftime('%Y-%m-%d')\<close> rendering); \<open>is_fallback\<close> is \<open>False\<close>
  where the source leaves the key out.
\<close>

record eta_result =
  estimated_approval_date :: int
  days_remaining :: int
  confidence_level :: string
  progress_percentage :: rat
  estimated_processing_date :: int
  processing_rate :: int
  position_in_queue :: int
  submission_date :: string
  is_fallback :: bool

text \<open>
  \<open>math.ceil(position / processing_rate)\<close>, after the default has replaced a
  non-positive rate; the first lines of \<open>_calculate_days_remaining\<close> and of
  \<open>_calculate_processing_date\<close>.
\<close>

definition base_days :: "config \<Rightarrow> int \<Rightarrow> int \<Rightarrow> py_error + int" where
  "base_days cfg position rate =
    (let r = (if rate \<le> 0 then DEFAULT_PROCESSING_RATE cfg else rate) in
     case int_truediv position r of
       Inl e \<Rightarrow> Inl e
     | Inr q \<Rightarrow> math_ceil q)"

definition calculate_days_remaining :: "config \<Rightarrow> int \<Rightarrow> int \<Rightarrow> py_error + int" where
  "calculate_days_remaining cfg position rate =
    (case base_days cfg position rate of
       Inl e \<Rightarrow> Inl e
     | Inr days \<Rightarrow>
        (case float_of_int days of
           Inl e \<Rightarrow> Inl e
         | Inr fd \<Rightarrow>
            (case math_ceil (RN (fd * lit (2 / 10))) of
               Inl e \<Rightarrow> Inl e
             | Inr buffer_days \<Rightarrow> Inr (max 1 (days + buffer_days)))))"

text \<open>The loop \<open>while d.weekday() >= 5: d += timedelta(days=1)\<close>.\<close>

function skip_weekend :: "int \<Rightarrow> py_error + int" where
  "skip_weekend d =
    (if 5 \<le> weekday d then
       (case date_add d 1 of Inl e \<Rightarrow> Inl e | Inr d' \<Rightarrow> skip_weekend d')
     else Inr d)"
  by pat_completeness auto
termination
proof (relation "measure (\<lambda>d. nat ((7 - weekday d) mod 7))")
  show "wf (measure (\<lambda>d. nat ((7 - weekday d) mod 7)))" by simp
next
  fix d d' :: int
  assume w: "5 \<le> weekday d" and a: "date_add d 1 = Inr d'"
  from a have d': "d' = d + 1"
    by (auto simp: date_add_def split: if_splits)
  from w have "weekday d = 5 \<or> weekday d = 6"
    unfolding weekday_def by presburger
  then have "(7 - weekday d') mod 7 < (7 - weekday d) mod 7 \<and> 0 \<le> (7 - weekday d') mod 7"
    unfolding weekday_def d' by presburger
  then show "(d', d) \<in> measure (\<lambda>d. nat ((7 - weekday d) mod 7))" by simp
qed

declare skip_weekend.simps [simp del]

definition calculate_approval_date :: "int \<Rightarrow> int \<Rightarrow> py_error + int" where
  "calculate_approval_date today days =
    (case date_add today days of Inl e \<Rightarrow> Inl e | Inr d \<Rightarrow> skip_weekend d)"

text \<open>
  \<open>_determine_confidence_level\<close>: the three tiers give the decimal written in the
  source, and the score adds their doubles to \<open>0.0\<close> one after the other, then \<open>0.1\<close>,
  each addition rounded.
\<close>

definition position_factor :: "int \<Rightarrow> rat" where
  "position_factor position =
    (if position \<le> 100 then 3 / 10 else if position \<le> 500 then 2 / 10
     else if position \<le> 1000 then 1 / 10 else 5 / 100)"

definition rate_factor :: "int \<Rightarrow> rat" where
  "rate_factor rate =
    (if 100 \<le> rate then 3 / 10 else if 50 \<le> rate then 2 / 10
     else if 25 \<le> rate then 1 / 10 else 5 / 100)"

definition days_factor :: "int \<Rightarrow> rat" where
  "days_factor days =
    (if days \<le> 30 then 2 / 10 else if days \<le> 90 then 15 / 100
     else if days \<le> 180 then 1 / 10 else 5 / 100)"

definition confidence_score :: "int \<Rightarrow> int \<Rightarrow> int \<Rightarrow> rat" where
  "confidence_score position rate days =
    RN (RN (RN (RN (0 + lit (position_factor position)) + lit (rate_factor rate))
            + lit (days_factor days)) + lit (1 / 10))"

definition determine_confidence_level :: "int \<Rightarrow> int \<Rightarrow> int \<Rightarrow> string" where
  "determine_confidence_level position rate days =
    (let confidence_score = confidence_score position rate days in
     if lit (7 / 10) \<le> confidence_score then ''High''
     else if lit (5 / 10) \<le> confidence_score then ''Medium''
     else ''Low'')"

text \<open>
  \<open>_calculate_progress_percentage\<close>. \<open>min(100.0, z)\<close> is \<open>z\<close> where \<open>z < 100.0\<close> and
  \<open>max(0.0, m)\<close> is \<open>m\<close> where \<open>m > 0.0\<close>, also for an infinite product.
\<close>

definition calculate_progress_percentage :: "config \<Rightarrow> int \<Rightarrow> py_error + rat" where
  "calculate_progress_percentage cfg position =
    (let estimated_total_queue = MOCK_TOTAL_APPLICATIONS cfg in
     if estimated_total_queue \<le> 0 then Inr 0
     else
       (case int_truediv (estimated_total_queue - position) estimated_total_queue of
          Inl e \<Rightarrow> Inl e
        | Inr q \<Rightarrow>
           (let z = RN (q * 100);
                m = (if z < 100 then z else 100);
                progress = (if 0 < m then m else 0)
            in Inr (py_round1 progress))))"

definition calculate_processing_date :: "config \<Rightarrow> int \<Rightarrow> int \<Rightarrow> int \<Rightarrow> py_error + int" where
  "calculate_processing_date cfg today position rate =
    (case base_days cfg position rate of
       Inl e \<Rightarrow> Inl e
     | Inr processing_days \<Rightarrow>
        (case date_add today processing_days of
           Inl e \<Rightarrow> Inl e
         | Inr d \<Rightarrow> skip_weekend d))"

text \<open>The body of the \<open>try\<close> of \<open>calculate_eta\<close>.\<close>

definition calculate_eta_body ::
  "config \<Rightarrow> int \<Rightarrow> int \<Rightarrow> int \<Rightarrow> string \<Rightarrow> py_error + eta_result" where
  "calculate_eta_body cfg today position rate sub =
    (case calculate_days_remaining cfg position rate of
       Inl e \<Rightarrow> Inl e
     | Inr days \<Rightarrow>
    (case calculate_approval_date today days of
       Inl e \<Rightarrow> Inl e
     | Inr estimated_date \<Rightarrow>
    (case calculate_progress_percentage cfg position of
       Inl e \<Rightarrow> Inl e
     | Inr progress \<Rightarrow>
    (case calculate_processing_date cfg today position rate of
       Inl e \<Rightarrow> Inl e
     | Inr processing_date \<Rightarrow>
        Inr \<lparr> estimated_approval_date = estimated_date,
              days_remaining = days,
              confidence_level = determine_confidence_level position rate days,
              progress_percentage = progress,
              estimated_processing_date = processing_date,
              processing_rate = rate,
              position_in_queue = position,
              submission_date = sub,
              is_fallback = False \<rparr>))))"

text \<open>
  \<open>_get_fallback_eta\<close>: the body of its \<open>try\<close>, the hard-coded dictionary of its
  \<open>except\<close>, and the method.
\<close>

definition fallback_body :: "config \<Rightarrow> int \<Rightarrow> string \<Rightarrow> py_error + eta_result" where
  "fallback_body cfg today sub =
    (case strptime sub of
       Inl e \<Rightarrow> Inl e
     | Inr sub_date \<Rightarrow>
        (let days_since_submission = today - sub_date;
             estimated_days_remaining = max 30 (180 - days_since_submission)
         in case date_add today estimated_days_remaining of
              Inl e \<Rightarrow> Inl e
            | Inr estimated_date \<Rightarrow>
               (case date_add today 60 of
                  Inl e \<Rightarrow> Inl e
                | Inr processing_date \<Rightarrow>
                   Inr \<lparr> estimated_approval_date = estimated_date,
                         days_remaining = estimated_days_remaining,
                         confidence_level = ''Low'',
                         progress_percentage = 50,
                         estimated_processing_date = processing_date,
                         processing_rate = DEFAULT_PROCESSING_RATE cfg,
                         position_in_queue = MOCK_POSITION cfg,
                         submission_date = sub,
                         is_fallback = True \<rparr>)))"

definition placeholder_eta :: "config \<Rightarrow> string \<Rightarrow> eta_result" where
  "placeholder_eta cfg sub =
    \<lparr> estimated_approval_date = ymd2ord 2024 6 15,
      days_remaining = 120,
      confidence_level = ''Low'',
      progress_percentage = 50,
      estimated_processing_date = ymd2ord 2024 3 15,
      processing_rate = DEFAULT_PROCESSING_RATE cfg,
      position_in_queue = MOCK_POSITION cfg,
      submission_date = sub,
      is_fallback = True \<rparr>"

definition get_fallback_eta :: "config \<Rightarrow> int \<Rightarrow> string \<Rightarrow> py_error + eta_result" where
  "get_fallback_eta cfg today sub =
    (case fallback_body cfg today sub of
       Inl e \<Rightarrow> Inr (placeholder_eta cfg sub)
     | Inr r \<Rightarrow> Inr r)"

definition calculate_eta ::
  "config \<Rightarrow> int \<Rightarrow> int \<Rightarrow> int \<Rightarrow> string \<Rightarrow> py_error + eta_result" where
  "calculate_eta cfg today position rate sub =
    (case calculate_eta_body cfg today position rate sub of
       Inl e \<Rightarrow> get_fallback_eta cfg today sub
     | Inr r \<Rightarrow> Inr r)"

text \<open>The defaults of \<open>config.py\<close>.\<close>

definition default_config :: config where
  "default_config =
    \<lparr> DEFAULT_PROCESSING_RATE = 50, MOCK_POSITION = 1500, MOCK_TOTAL_APPLICATIONS = 5000 \<rparr>"

section \<open>Properties of the string functions\<close>

lemma starts_with_iff: "starts_with w s \<longleftrightarrow> (\<exists>ss. s = w @ ss)"
  by (induction w s rule: starts_with.induct) auto

lemma contains_iff: "contains w s \<longleftrightarrow> (\<exists>ps ss. s = ps @ w @ ss)"
proof (induction s)
  case Nil
  then show ?case by auto
next
  case (Cons c s)
  show ?case
  proof
    assume "contains w (c # s)"
    then consider "starts_with w (c # s)" | "contains w s" by auto
    then show "\<exists>ps ss. c # s = ps @ w @ ss"
    proof cases
      case 1
      then obtain ss where "c # s = w @ ss" by (auto simp: starts_with_iff)
      then have "c # s = [] @ w @ ss" by simp
      then show ?thesis by blast
    next
      case 2
      then obtain ps ss where "s = ps @ w @ ss" using Cons.IH by auto
      then have "c # s = (c # ps) @ w @ ss" by simp
      then show ?thesis by blast
    qed
  next
    assume "\<exists>ps ss. c # s = ps @ w @ ss"
    then obtain ps ss where eq: "c # s = ps @ w @ ss" by auto
    show "contains w (c # s)"
    proof (cases ps)
      case Nil
      with eq have "starts_with w (c # s)" by (auto simp: starts_with_iff)
      then show ?thesis by simp
    next
      case (Cons p ps')
      with eq have "s = ps' @ w @ ss" by simp
      then have "contains w s" using Cons.IH by auto
      then show ?thesis by simp
    qed
  qed
qed

section \<open>Properties of the float model\<close>

text \<open>
  \<open>ilog2\<close> is the binary exponent, and rounding to the nearest double is monotone
  on the non-negative rationals.
\<close>

lemma powi_neg: "0 \<le> j \<Longrightarrow> (2::rat) powi (- j) = 1 / 2 ^ nat j"
  by (simp add: power_int_minus_divide power_int_nonneg_exp)

lemma powi_split: "(2::rat) powi (a + b) = 2 powi a * 2 powi b"
  by (rule power_int_add) simp

lemma ilog2_lower: assumes "0 < x" shows "2 powi ilog2 x \<le> x"
proof (cases "1 \<le> x")
  case True
  define n where "n = \<lfloor>x\<rfloor>"
  have n1: "1 \<le> n" using True by (simp add: n_def)
  then have npos: "0 < n" by simp
  have b1: "1 \<le> bitlen n" using npos bitlen_eq_zero_iff [of n] bitlen_nonneg [of n] by linarith
  have "(2::int) ^ nat (bitlen n - 1) \<le> n" using bitlen_bounds [OF npos] by simp
  then have "(of_int ((2::int) ^ nat (bitlen n - 1)) :: rat) \<le> of_int n" by (simp only: of_int_le_iff)
  then have "(2::rat) ^ nat (bitlen n - 1) \<le> of_int n" by simp
  also have "(of_int n :: rat) \<le> x" by (simp add: n_def)
  finally have "(2::rat) ^ nat (bitlen n - 1) \<le> x" .
  moreover have "ilog2 x = bitlen n - 1" using True by (simp add: ilog2_def n_def)
  moreover have "(2::rat) powi (bitlen n - 1) = 2 ^ nat (bitlen n - 1)"
    using b1 by (simp add: power_int_nonneg_exp)
  ultimately show ?thesis by simp
next
  case False
  define m where "m = \<lceil>1 / x\<rceil> - 1"
  from False assms have y1: "1 < 1 / x" by (simp add: field_simps)
  then have "2 \<le> \<lceil>1 / x\<rceil>" by linarith
  then have mpos: "0 < m" by (simp add: m_def)
  have k: "ilog2 x = - bitlen m" using False by (simp add: ilog2_def m_def)
  have "m < 2 ^ nat (bitlen m)" using bitlen_bounds [OF mpos] by simp
  then have "m + 1 \<le> 2 ^ nat (bitlen m)" by simp
  then have "(of_int (m + 1) :: rat) \<le> of_int (2 ^ nat (bitlen m))" by (simp only: of_int_le_iff)
  then have "(of_int (m + 1) :: rat) \<le> 2 ^ nat (bitlen m)" by simp
  moreover have "1 / x \<le> of_int (m + 1)" by (simp add: m_def)
  ultimately have "1 / x \<le> 2 ^ nat (bitlen m)" by linarith
  then have "1 / 2 ^ nat (bitlen m) \<le> x" using assms by (simp add: field_simps)
  moreover have "(2::rat) powi (- bitlen m) = 1 / 2 ^ nat (bitlen m)"
    using bitlen_nonneg [of m] by (simp add: power_int_minus_divide power_int_nonneg_exp)
  ultimately show ?thesis using k by simp
qed

lemma ilog2_upper: assumes "0 < x" shows "x < 2 powi (ilog2 x + 1)"
proof (cases "1 \<le> x")
  case True
  define n where "n = \<lfloor>x\<rfloor>"
  have n1: "1 \<le> n" using True by (simp add: n_def)
  then have npos: "0 < n" by simp
  have b1: "1 \<le> bitlen n" using npos bitlen_eq_zero_iff [of n] bitlen_nonneg [of n] by linarith
  have "n < 2 ^ nat (bitlen n)" using bitlen_bounds [OF npos] by simp
  then have "n + 1 \<le> 2 ^ nat (bitlen n)" by simp
  then have "(of_int (n + 1) :: rat) \<le> of_int (2 ^ nat (bitlen n))" by (simp only: of_int_le_iff)
  then have "(of_int (n + 1) :: rat) \<le> 2 ^ nat (bitlen n)" by simp
  moreover have "x < of_int (n + 1)" unfolding n_def by linarith
  ultimately have "x < 2 ^ nat (bitlen n)" by linarith
  moreover have "ilog2 x + 1 = bitlen n" using True by (simp add: ilog2_def n_def)
  moreover have "(2::rat) powi (bitlen n) = 2 ^ nat (bitlen n)"
    using b1 by (simp add: power_int_nonneg_exp)
  ultimately show ?thesis by simp
next
  case False
  define m where "m = \<lceil>1 / x\<rceil> - 1"
  from False assms have y1: "1 < 1 / x" by (simp add: field_simps)
  then have "2 \<le> \<lceil>1 / x\<rceil>" by linarith
  then have mpos: "0 < m" by (simp add: m_def)
  have b1: "1 \<le> bitlen m" using mpos bitlen_eq_zero_iff [of m] bitlen_nonneg [of m] by linarith
  have k: "ilog2 x + 1 = - (bitlen m - 1)" using False by (simp add: ilog2_def m_def)
  have "(2::int) ^ nat (bitlen m - 1) \<le> m" using bitlen_bounds [OF mpos] by simp
  then have "(of_int ((2::int) ^ nat (bitlen m - 1)) :: rat) \<le> of_int m" by (simp only: of_int_le_iff)
  then have "(2::rat) ^ nat (bitlen m - 1) \<le> of_int m" by simp
  moreover have "of_int m < 1 / x" unfolding m_def by linarith
  ultimately have "(2::rat) ^ nat (bitlen m - 1) < 1 / x" by linarith
  then have "x < 1 / 2 ^ nat (bitlen m - 1)" using assms by (simp add: field_simps)
  moreover have "(2::rat) powi (ilog2 x + 1) = 1 / 2 ^ nat (bitlen m - 1)"
    unfolding k using b1 by (intro powi_neg) simp
  ultimately show ?thesis by simp
qed

lemma ilog2_mono: assumes "0 < x" "x \<le> y" shows "ilog2 x \<le> ilog2 y"
proof (rule ccontr)
  assume "\<not> ilog2 x \<le> ilog2 y"
  then have "ilog2 y + 1 \<le> ilog2 x" by simp
  then have "(2::rat) powi (ilog2 y + 1) \<le> 2 powi ilog2 x"
    by (intro power_int_increasing) auto
  also have "\<dots> \<le> x" using ilog2_lower [OF assms(1)] .
  also have "\<dots> \<le> y" by fact
  finally show False using ilog2_upper [of y] assms by simp
qed

lemma rhe_bounds: "\<lfloor>x\<rfloor> \<le> round_half_even x \<and> round_half_even x \<le> \<lfloor>x\<rfloor> + 1"
  by (simp add: round_half_even_def Let_def)

lemma rhe_of_int: "round_half_even (of_int n) = n"
  by (simp add: round_half_even_def Let_def)

lemma rhe_mono: assumes "x \<le> y" shows "round_half_even x \<le> round_half_even y"
proof (cases "\<lfloor>x\<rfloor> = \<lfloor>y\<rfloor>")
  case True
  with assms show ?thesis by (auto simp: round_half_even_def Let_def)
next
  case False
  with assms have "\<lfloor>x\<rfloor> + 1 \<le> \<lfloor>y\<rfloor>" using floor_mono [OF assms] by linarith
  with rhe_bounds [of x] rhe_bounds [of y] show ?thesis by linarith
qed

lemma RN_pos_nonneg: assumes "0 < x" shows "0 \<le> RN_pos x"
proof -
  define q where "q = (2::rat) powi (max (ilog2 x) (- 1022) - 52)"
  have qpos: "0 < q" by (simp add: q_def)
  then have "0 \<le> x / q" using assms by simp
  then have "0 \<le> \<lfloor>x / q\<rfloor>" by simp
  then have "0 \<le> round_half_even (x / q)" using rhe_bounds [of "x / q"] by linarith
  then have "0 \<le> of_int (round_half_even (x / q)) * q" using qpos by simp
  then show ?thesis by (simp add: RN_pos_def Let_def q_def)
qed

lemma RN_pos_mono: assumes "0 < x" "x \<le> y" shows "RN_pos x \<le> RN_pos y"
proof -
  define ex where "ex = max (ilog2 x) (- 1022)"
  define ey where "ey = max (ilog2 y) (- 1022)"
  define qx where "qx = (2::rat) powi (ex - 52)"
  define qy where "qy = (2::rat) powi (ey - 52)"
  have ypos: "0 < y" using assms by simp
  have qxpos: "0 < qx" and qypos: "0 < qy" by (simp_all add: qx_def qy_def)
  have rx: "RN_pos x = of_int (round_half_even (x / qx)) * qx"
    by (simp add: RN_pos_def Let_def qx_def ex_def)
  have ry: "RN_pos y = of_int (round_half_even (y / qy)) * qy"
    by (simp add: RN_pos_def Let_def qy_def ey_def)
  have le: "ex \<le> ey" using ilog2_mono [OF assms] by (simp add: ex_def ey_def)
  show ?thesis
  proof (cases "ex = ey")
    case True
    then have q: "qx = qy" by (simp add: qx_def qy_def)
    have "x / qy \<le> y / qy" using assms(2) qypos by (simp add: divide_right_mono)
    then have "round_half_even (x / qy) \<le> round_half_even (y / qy)" by (rule rhe_mono)
    then have "(of_int (round_half_even (x / qy)) :: rat) \<le> of_int (round_half_even (y / qy))"
      by simp
    then show ?thesis unfolding rx ry q using qypos by (simp add: mult_right_mono)
  next
    case False
    with le have lt: "ex + 1 \<le> ey" by simp
    then have eyl: "ey = ilog2 y" by (simp add: ey_def ex_def)
    have "x < 2 powi (ilog2 x + 1)" using ilog2_upper [OF assms(1)] .
    also have "\<dots> \<le> 2 powi (ex + 1)" by (intro power_int_increasing) (auto simp: ex_def)
    finally have xu: "x < 2 powi (ex + 1)" .
    have s1: "(2::rat) powi (ex + 1) = 2 ^ 53 * qx"
    proof -
      have e1: "ex + 1 = 53 + (ex - 52)" by simp
      have "(2::rat) powi (ex + 1) = 2 powi 53 * 2 powi (ex - 52)"
        unfolding e1 by (rule powi_split)
      then show ?thesis by (simp add: qx_def)
    qed
    have "x / qx \<le> 2 ^ 53" using xu qxpos unfolding s1 by (simp add: field_simps)
    then have "round_half_even (x / qx) \<le> round_half_even (of_int (2 ^ 53))"
      by (intro rhe_mono) simp
    then have "round_half_even (x / qx) \<le> 2 ^ 53" unfolding rhe_of_int .
    then have "(of_int (round_half_even (x / qx)) :: rat) \<le> of_int (2 ^ 53)"
      by (simp only: of_int_le_iff)
    then have "of_int (round_half_even (x / qx)) * qx \<le> 2 ^ 53 * qx"
      using qxpos by (simp add: mult_right_mono)
    then have a: "RN_pos x \<le> 2 powi (ex + 1)" unfolding rx s1 .
    have b: "(2::rat) powi (ex + 1) \<le> 2 powi ey" using lt by (intro power_int_increasing) auto
    have s2: "(2::rat) powi ey = 2 ^ 52 * qy"
    proof -
      have e2: "ey = 52 + (ey - 52)" by simp
      have "(2::rat) powi (52 + (ey - 52)) = 2 powi 52 * 2 powi (ey - 52)"
        by (rule powi_split)
      then have "(2::rat) powi ey = 2 powi 52 * 2 powi (ey - 52)"
        using e2 by simp
      then show ?thesis by (simp add: qy_def)
    qed
    have "2 powi ey \<le> y" using ilog2_lower [OF ypos] unfolding eyl .
    then have "2 ^ 52 \<le> y / qy" using qypos unfolding s2 by (simp add: field_simps)
    then have "round_half_even (of_int (2 ^ 52)) \<le> round_half_even (y / qy)"
      by (intro rhe_mono) simp
    then have "2 ^ 52 \<le> round_half_even (y / qy)" unfolding rhe_of_int .
    then have "(of_int (2 ^ 52) :: rat) \<le> of_int (round_half_even (y / qy))"
      by (simp only: of_int_le_iff)
    then have "2 ^ 52 * qy \<le> of_int (round_half_even (y / qy)) * qy"
      using qypos by (simp add: mult_right_mono)
    then have c: "2 powi ey \<le> RN_pos y" unfolding ry s2 .
    from a b c show ?thesis by linarith
  qed
qed

lemma RN_nonneg: "0 \<le> x \<Longrightarrow> 0 \<le> RN x"
  by (simp add: RN_def RN_pos_nonneg)

lemma RN_mono: assumes "0 \<le> x" "x \<le> y" shows "RN x \<le> RN y"
proof (cases "x = 0")
  case True
  then show ?thesis using RN_nonneg [of y] assms by (simp add: RN_def)
next
  case False
  with assms have "0 < x" "0 < y" by simp_all
  then show ?thesis using RN_pos_mono [of x y] assms by (simp add: RN_def)
qed

lemma not_inf_le: "0 \<le> a \<Longrightarrow> a \<le> b \<Longrightarrow> \<not> is_inf b \<Longrightarrow> \<not> is_inf a"
  by (simp add: is_inf_def)

lemma lit_nonneg: "0 \<le> d \<Longrightarrow> 0 \<le> lit d"
  by (simp add: lit_def RN_nonneg)

text \<open>The threshold \<open>2^1024\<close> as \<open>(2^32)^32\<close>, for evaluation.\<close>

lemma is_inf_code [code]: "is_inf v = (((2::rat) ^ 32) ^ 32 \<le> \<bar>v\<bar>)"
proof -
  have "((2::rat) ^ 32) ^ 32 = 2 ^ 1024" by (simp only: power_mult [symmetric]) simp
  moreover have "(2::rat) powi 1024 = 2 ^ 1024" by simp
  ultimately show ?thesis unfolding is_inf_def by simp
qed

section \<open>Properties of the estimator\<close>

lemma base_days_pos_rate:
  "0 < rate \<Longrightarrow> base_days cfg position rate = base_days default_config position rate"
  by (simp add: base_days_def)

lemma calculate_days_remaining_pos_rate:
  "0 < rate \<Longrightarrow>
   calculate_days_remaining cfg position rate = calculate_days_remaining default_config position rate"
  by (simp add: calculate_days_remaining_def base_days_pos_rate [of rate cfg])

lemma base_days_mono:
  assumes r: "0 < rate" and p: "0 < p1" "p1 \<le> p2"
    and b2: "base_days cfg p2 rate = Inr d2"
  shows "\<exists>d1. base_days cfg p1 rate = Inr d1 \<and> 0 \<le> d1 \<and> d1 \<le> d2"
proof -
  define q1 where "q1 = RN (of_int p1 / of_int rate)"
  define q2 where "q2 = RN (of_int p2 / of_int rate)"
  have x: "(0::rat) \<le> of_int p1 / of_int rate" using r p by simp
  have xy: "(of_int p1 :: rat) / of_int rate \<le> of_int p2 / of_int rate"
    using r p by (simp add: divide_right_mono)
  have q10: "0 \<le> q1" unfolding q1_def using x by (rule RN_nonneg)
  have q12: "q1 \<le> q2" unfolding q1_def q2_def using x xy by (rule RN_mono)
  from b2 r have n2: "\<not> is_inf q2" and d2: "d2 = \<lceil>q2\<rceil>"
    by (auto simp: base_days_def int_truediv_def math_ceil_def Let_def q2_def split: if_splits)
  have n1: "\<not> is_inf q1" using q10 q12 n2 by (rule not_inf_le)
  have "base_days cfg p1 rate = Inr \<lceil>q1\<rceil>"
    using r n1 by (simp add: base_days_def int_truediv_def math_ceil_def Let_def q1_def)
  moreover have "0 \<le> \<lceil>q1\<rceil>" using q10 by simp
  moreover have "\<lceil>q1\<rceil> \<le> d2" unfolding d2 using q12 by (rule ceiling_mono)
  ultimately show ?thesis by blast
qed

lemma calculate_days_remaining_mono:
  assumes r: "0 < rate" and p: "0 < p1" "p1 \<le> p2"
    and c2: "calculate_days_remaining cfg p2 rate = Inr t2"
  shows "\<exists>t1. calculate_days_remaining cfg p1 rate = Inr t1 \<and> t1 \<le> t2"
proof -
  from c2 obtain d2 where b2: "base_days cfg p2 rate = Inr d2"
    by (auto simp: calculate_days_remaining_def split: sum.splits)
  from base_days_mono [OF r p b2] obtain d1
    where b1: "base_days cfg p1 rate = Inr d1" and d10: "0 \<le> d1" and d12: "d1 \<le> d2"
    by blast
  define c where "c = lit (2 / 10)"
  have c0: "0 \<le> c" unfolding c_def by (rule lit_nonneg) simp
  define f1 where "f1 = RN (of_int d1)"
  define f2 where "f2 = RN (of_int d2)"
  define g1 where "g1 = RN (f1 * c)"
  define g2 where "g2 = RN (f2 * c)"
  have f10: "0 \<le> f1" unfolding f1_def using d10 by (intro RN_nonneg) simp
  have f12: "f1 \<le> f2" unfolding f1_def f2_def using d10 d12 by (intro RN_mono) simp_all
  have m0: "0 \<le> f1 * c" using f10 c0 by simp
  have m12: "f1 * c \<le> f2 * c" using f12 c0 by (rule mult_right_mono)
  have g10: "0 \<le> g1" unfolding g1_def using m0 by (rule RN_nonneg)
  have g12: "g1 \<le> g2" unfolding g1_def g2_def using m0 m12 by (rule RN_mono)
  from c2 b2 have nf2: "\<not> is_inf f2" and ng2: "\<not> is_inf g2"
    and t2: "t2 = max 1 (d2 + \<lceil>g2\<rceil>)"
    by (auto simp: calculate_days_remaining_def float_of_int_def math_ceil_def Let_def
        f2_def g2_def c_def split: sum.splits if_splits)
  have nf1: "\<not> is_inf f1" using f10 f12 nf2 by (rule not_inf_le)
  have ng1: "\<not> is_inf g1" using g10 g12 ng2 by (rule not_inf_le)
  have "calculate_days_remaining cfg p1 rate = Inr (max 1 (d1 + \<lceil>g1\<rceil>))"
    using b1 nf1 ng1
    by (simp add: calculate_days_remaining_def float_of_int_def math_ceil_def Let_def
        f1_def g1_def c_def)
  moreover have "max 1 (d1 + \<lceil>g1\<rceil>) \<le> t2"
    unfolding t2 using d12 ceiling_mono [OF g12] by simp
  ultimately show ?thesis by blast
qed

lemma calculate_days_remaining_ge1: "calculate_days_remaining cfg p r = Inr t \<Longrightarrow> 1 \<le> t"
  by (auto simp: calculate_days_remaining_def split: sum.splits)

lemma skip_weekend_weekday: "skip_weekend d = Inr d' \<Longrightarrow> weekday d' < 5"
proof (induction d rule: skip_weekend.induct)
  case (1 d)
  show ?case
  proof (cases "5 \<le> weekday d")
    case True
    with "1.prems" obtain d1 where a: "date_add d 1 = Inr d1" and s: "skip_weekend d1 = Inr d'"
      by (subst (asm) skip_weekend.simps) (auto split: sum.splits)
    from "1.IH" [OF True a s] show ?thesis .
  next
    case False
    with "1.prems" have "d' = d" by (subst (asm) skip_weekend.simps) simp
    with False show ?thesis by simp
  qed
qed

lemma calculate_eta_body_props:
  assumes "calculate_eta_body cfg today p r sub = Inr res"
  shows "calculate_days_remaining cfg p r = Inr (days_remaining res)"
    and "weekday (estimated_approval_date res) < 5"
    and "\<not> is_fallback res"
proof -
  from assms obtain days ed where d: "calculate_days_remaining cfg p r = Inr days"
    and e: "calculate_approval_date today days = Inr ed"
    and dr: "days_remaining res = days" and ea: "estimated_approval_date res = ed"
    and nf: "\<not> is_fallback res"
    by (auto simp: calculate_eta_body_def split: sum.splits)
  show "calculate_days_remaining cfg p r = Inr (days_remaining res)" using d dr by simp
  from e obtain d0 where "skip_weekend d0 = Inr ed"
    by (auto simp: calculate_approval_date_def split: sum.splits)
  then show "weekday (estimated_approval_date res) < 5"
    unfolding ea by (rule skip_weekend_weekday)
  show "\<not> is_fallback res" by fact
qed

lemma fallback_body_props:
  assumes "fallback_body cfg today sub = Inr res"
  shows "30 \<le> days_remaining res" and "is_fallback res"
  using assms by (auto simp: fallback_body_def Let_def split: sum.splits)

lemma placeholder_is_fallback: "is_fallback (placeholder_eta cfg sub)"
  by (simp add: placeholder_eta_def)

lemma get_fallback_eta_props:
  "\<exists>res. get_fallback_eta cfg today sub = Inr res \<and> 30 \<le> days_remaining res \<and> is_fallback res"
proof (cases "fallback_body cfg today sub")
  case (Inl e)
  then show ?thesis by (simp add: get_fallback_eta_def placeholder_eta_def)
next
  case (Inr res)
  with fallback_body_props [OF Inr] show ?thesis by (simp add: get_fallback_eta_def)
qed

lemma calculate_eta_cases:
  "(\<exists>res. calculate_eta_body cfg today p r sub = Inr res \<and> calculate_eta cfg today p r sub = Inr res)
   \<or> (isl (calculate_eta_body cfg today p r sub)
       \<and> calculate_eta cfg today p r sub = get_fallback_eta cfg today sub)"
  by (cases "calculate_eta_body cfg today p r sub") (simp_all add: calculate_eta_def)

section \<open>Claims on the estimator\<close>

text \<open>
  C3 (as the code has it): for every position, rate, current date and submission date,
  in particular for every position and rate above zero, \<open>calculate_eta\<close> returns a
  result whose \<open>days_remaining\<close> is at least 1; and whenever the result is not a
  fallback (the main computation raised nothing), its estimated approval date is a
  weekday, Monday to Friday.
\<close>

theorem C3_days_and_weekday:
  "\<exists>res. calculate_eta cfg today position rate sub = Inr res
      \<and> 1 \<le> days_remaining res
      \<and> (is_fallback res \<or> weekday (estimated_approval_date res) < 5)"
proof -
  from calculate_eta_cases [of cfg today position rate sub] show ?thesis
  proof
    assume "\<exists>res. calculate_eta_body cfg today position rate sub = Inr res
        \<and> calculate_eta cfg today position rate sub = Inr res"
    then obtain res where b: "calculate_eta_body cfg today position rate sub = Inr res"
      and c: "calculate_eta cfg today position rate sub = Inr res" by blast
    from calculate_eta_body_props [OF b] calculate_days_remaining_ge1
    have "1 \<le> days_remaining res" "weekday (estimated_approval_date res) < 5" by blast+
    with c show ?thesis by blast
  next
    assume a: "isl (calculate_eta_body cfg today position rate sub)
       \<and> calculate_eta cfg today position rate sub = get_fallback_eta cfg today sub"
    from get_fallback_eta_props [of cfg today sub] obtain res
      where "get_fallback_eta cfg today sub = Inr res" "30 \<le> days_remaining res" "is_fallback res"
      by blast
    with a show ?thesis by auto
  qed
qed

theorem C3_days_and_weekday_witness:
  "(case calculate_eta default_config (ymd2ord 2026 11 4) 500 50 ''2026-10-25'' of
      Inl e \<Rightarrow> False
    | Inr res \<Rightarrow> \<not> is_fallback res \<and> 1 \<le> days_remaining res
        \<and> weekday (estimated_approval_date res) < 5)"
proof -
  have nf: "map_sum id is_fallback
      (calculate_eta default_config (ymd2ord 2026 11 4) 500 50 ''2026-10-25'') = Inr False"
    by code_simp
  from C3_days_and_weekday [of default_config "ymd2ord 2026 11 4" 500 50 "''2026-10-25''"]
  obtain res where "calculate_eta default_config (ymd2ord 2026 11 4) 500 50 ''2026-10-25'' = Inr res"
    "1 \<le> days_remaining res" "is_fallback res \<or> weekday (estimated_approval_date res) < 5"
    by blast
  with nf show ?thesis by auto
qed

text \<open>
  C3 as stated fails: with position \<open>10000000\<close> and rate 1 on 2026-11-04 the
  estimated date would lie beyond the year 9999, \<open>datetime + timedelta\<close> raises
  \<open>OverflowError\<close>, and the fallback computed from the submission date 2026-11-02
  is today plus 178 days, 2027-05-01, a Saturday: the fallback does not skip weekends.
\<close>

theorem C3_fallback_weekend_counterexample:
  "(0::int) < 10000000 \<and> (0::int) < 1
   \<and> strptime ''2026-11-02'' = Inr (ymd2ord 2026 11 2)
   \<and> calculate_eta default_config (ymd2ord 2026 11 4) 10000000 1 ''2026-11-02'' =
       Inr \<lparr> estimated_approval_date = ymd2ord 2027 5 1, days_remaining = 178,
             confidence_level = ''Low'', progress_percentage = 50,
             estimated_processing_date = ymd2ord 2027 1 3, processing_rate = 50,
             position_in_queue = 1500, submission_date = ''2026-11-02'',
             is_fallback = True \<rparr>
   \<and> weekday (ymd2ord 2027 5 1) = 5"
  by code_simp

text \<open>
  C4: with position 500 and rate 50 the estimator computes 10 base days and 12 days
  remaining, the confidence factors are 0.2 (position), 0.2 (rate), 0.2 (days) and the
  constant 0.1, which sum to 0.7, and the level is \<open>High\<close>; with position 5000 and
  rate 10 it computes 500 base days (600 days remaining), the factors are 0.05, 0.05,
  0.05 and 0.1, which sum to 0.25, and the level is \<open>Low\<close>. The factors are the
  decimals of the source; the level is decided on the sum of their doubles.
\<close>

theorem C4_scenarios:
  "base_days cfg 500 50 = Inr 10
   \<and> calculate_days_remaining cfg 500 50 = Inr 12
   \<and> position_factor 500 = 2 / 10 \<and> rate_factor 50 = 2 / 10 \<and> days_factor 12 = 2 / 10
   \<and> position_factor 500 + rate_factor 50 + days_factor 12 + 1 / 10 = 7 / 10
   \<and> determine_confidence_level 500 50 12 = ''High''
   \<and> base_days cfg 5000 10 = Inr 500
   \<and> calculate_days_remaining cfg 5000 10 = Inr 600
   \<and> position_factor 5000 = 5 / 100 \<and> rate_factor 10 = 5 / 100 \<and> days_factor 600 = 5 / 100
   \<and> position_factor 5000 + rate_factor 10 + days_factor 600 + 1 / 10 = 25 / 100
   \<and> determine_confidence_level 5000 10 600 = ''Low''"
proof -
  have "base_days default_config 500 50 = Inr 10" by code_simp
  then have b1: "base_days cfg 500 50 = Inr 10" by (simp add: base_days_pos_rate [of 50 cfg])
  have "calculate_days_remaining default_config 500 50 = Inr 12" by code_simp
  then have d1: "calculate_days_remaining cfg 500 50 = Inr 12"
    by (simp add: calculate_days_remaining_pos_rate [of 50 cfg])
  have "base_days default_config 5000 10 = Inr 500" by code_simp
  then have b2: "base_days cfg 5000 10 = Inr 500" by (simp add: base_days_pos_rate [of 10 cfg])
  have "calculate_days_remaining default_config 5000 10 = Inr 600" by code_simp
  then have d2: "calculate_days_remaining cfg 5000 10 = Inr 600"
    by (simp add: calculate_days_remaining_pos_rate [of 10 cfg])
  have f: "position_factor 500 = 2 / 10" "rate_factor 50 = 2 / 10" "days_factor 12 = 2 / 10"
    "position_factor 5000 = 5 / 100" "rate_factor 10 = 5 / 100" "days_factor 600 = 5 / 100"
    by (simp_all add: position_factor_def rate_factor_def days_factor_def)
  have s1: "position_factor 500 + rate_factor 50 + days_factor 12 + 1 / 10 = 7 / 10"
    unfolding f by simp
  have s2: "position_factor 5000 + rate_factor 10 + days_factor 600 + 1 / 10 = 25 / 100"
    unfolding f by simp
  have l1: "determine_confidence_level 500 50 12 = ''High''" by code_simp
  have l2: "determine_confidence_level 5000 10 600 = ''Low''" by code_simp
  from b1 d1 b2 d2 f s1 s2 l1 l2 show ?thesis by blast
qed

text \<open>
  C5 (as the code has it): for every rate above zero and positions
  \<open>0 < p1 \<le> p2\<close>, whenever neither result of \<open>calculate_eta\<close> is a fallback,
  the \<open>days_remaining\<close> computed for \<open>p2\<close> is at least the one computed for \<open>p1\<close>.
\<close>

theorem C5_monotonic:
  assumes "0 < rate" "0 < p1" "p1 \<le> p2"
    and "calculate_eta cfg today p1 rate sub = Inr r1"
    and "calculate_eta cfg today p2 rate sub = Inr r2"
    and "\<not> is_fallback r1" "\<not> is_fallback r2"
  shows "days_remaining r1 \<le> days_remaining r2"
proof -
  have b: "calculate_eta_body cfg today p rate sub = Inr r"
    if "calculate_eta cfg today p rate sub = Inr r" "\<not> is_fallback r" for p r
    using calculate_eta_cases [of cfg today p rate sub] get_fallback_eta_props [of cfg today sub] that
    by auto
  from b [OF assms(4) assms(6)] have 1: "calculate_days_remaining cfg p1 rate = Inr (days_remaining r1)"
    by (rule calculate_eta_body_props)
  from b [OF assms(5) assms(7)] have 2: "calculate_days_remaining cfg p2 rate = Inr (days_remaining r2)"
    by (rule calculate_eta_body_props)
  from calculate_days_remaining_mono [OF assms(1-3) 2] 1 show ?thesis by auto
qed

theorem C5_monotonic_witness:
  "(0::int) < 50 \<and> (0::int) < 500 \<and> (500::int) \<le> 5000
   \<and> calculate_eta default_config (ymd2ord 2026 11 4) 500 50 ''2026-10-25'' =
       Inr \<lparr> estimated_approval_date = ymd2ord 2026 11 16, days_remaining = 12,
             confidence_level = ''High'', progress_percentage = 90,
             estimated_processing_date = ymd2ord 2026 11 16, processing_rate = 50,
             position_in_queue = 500, submission_date = ''2026-10-25'', is_fallback = False \<rparr>
   \<and> calculate_eta default_config (ymd2ord 2026 11 4) 5000 50 ''2026-10-25'' =
       Inr \<lparr> estimated_approval_date = ymd2ord 2027 3 4, days_remaining = 120,
             confidence_level = ''Low'', progress_percentage = 0,
             estimated_processing_date = ymd2ord 2027 2 12, processing_rate = 50,
             position_in_queue = 5000, submission_date = ''2026-10-25'', is_fallback = False \<rparr>
   \<and> (12::int) \<le> 120"
proof -
  define r1 where "r1 = \<lparr> estimated_approval_date = ymd2ord 2026 11 16, days_remaining = 12,
             confidence_level = ''High'', progress_percentage = 90,
             estimated_processing_date = ymd2ord 2026 11 16, processing_rate = 50,
             position_in_queue = 500, submission_date = ''2026-10-25'', is_fallback = False \<rparr>"
  define r2 where "r2 = \<lparr> estimated_approval_date = ymd2ord 2027 3 4, days_remaining = 120,
             confidence_level = ''Low'', progress_percentage = 0,
             estimated_processing_date = ymd2ord 2027 2 12, processing_rate = 50,
             position_in_queue = 5000, submission_date = ''2026-10-25'', is_fallback = False \<rparr>"
  have e1: "calculate_eta default_config (ymd2ord 2026 11 4) 500 50 ''2026-10-25'' = Inr r1"
    unfolding r1_def by code_simp
  have e2: "calculate_eta default_config (ymd2ord 2026 11 4) 5000 50 ''2026-10-25'' = Inr r2"
    unfolding r2_def by code_simp
  have f: "\<not> is_fallback r1" "\<not> is_fallback r2" by (simp_all add: r1_def r2_def)
  have h: "(0::int) < 50" "(0::int) < 500" "(500::int) \<le> 5000" by simp_all
  from C5_monotonic [OF h e1 e2 f] have "days_remaining r1 \<le> days_remaining r2" .
  then have "(12::int) \<le> 120" by (simp add: r1_def r2_def)
  with e1 e2 h show ?thesis unfolding r1_def r2_def by blast
qed

text \<open>
  C5 as stated fails: at rate 1 on 2026-11-04, position \<open>2000000\<close> gives 2400000
  days remaining, and the larger position \<open>10000000\<close> overflows the calendar and
  gives the fallback estimate of 178 days.
\<close>

theorem C5_fallback_counterexample:
  "(0::int) < 1 \<and> (0::int) < 2000000 \<and> (2000000::int) \<le> 10000000
   \<and> map_sum id days_remaining
        (calculate_eta default_config (ymd2ord 2026 11 4) 2000000 1 ''2026-11-02'') = Inr 2400000
   \<and> map_sum id days_remaining
        (calculate_eta default_config (ymd2ord 2026 11 4) 10000000 1 ''2026-11-02'') = Inr 178
   \<and> \<not> ((2400000::int) \<le> 178)"
  by code_simp

text \<open>
  C7 (as the code has it): on a current date of the calendar, \<open>calculate_eta\<close> never
  raises: for every position, rate and submission-date string it returns a result
  record. When the main computation raises, the result has \<open>is_fallback\<close> set; it is
  computed from the submission date alone, with
  \<open>days_remaining = max(30, 180 - days elapsed since submission)\<close>, when the
  submission date parses and both today plus that many days and today plus 60 days
  are dates of the calendar (up to 9999-12-31); when the parse fails, or one of the two
  dates is beyond the calendar, the fixed hard-coded placeholder record is returned.
  When the main computation raises nothing, the result is not a fallback.
\<close>

theorem C7_never_raises:
  assumes "1 \<le> today" "today \<le> MAXORDINAL"
  shows "\<exists>r. calculate_eta cfg today position rate sub = Inr r
      \<and> (if isl (calculate_eta_body cfg today position rate sub) then
           is_fallback r
           \<and> (case strptime sub of
                Inr sub_date \<Rightarrow>
                  (if today + max 30 (180 - (today - sub_date)) \<le> MAXORDINAL
                      \<and> today + 60 \<le> MAXORDINAL
                   then r = \<lparr> estimated_approval_date = today + max 30 (180 - (today - sub_date)),
                              days_remaining = max 30 (180 - (today - sub_date)),
                              confidence_level = ''Low'', progress_percentage = 50,
                              estimated_processing_date = today + 60,
                              processing_rate = DEFAULT_PROCESSING_RATE cfg,
                              position_in_queue = MOCK_POSITION cfg,
                              submission_date = sub, is_fallback = True \<rparr>
                   else r = placeholder_eta cfg sub)
              | Inl e \<Rightarrow> r = placeholder_eta cfg sub)
         else \<not> is_fallback r)"
proof (cases "calculate_eta_body cfg today position rate sub")
  case (Inr res)
  then have "calculate_eta cfg today position rate sub = Inr res"
    by (simp add: calculate_eta_def)
  moreover have "\<not> is_fallback res" using Inr by (rule calculate_eta_body_props)
  ultimately show ?thesis using Inr by simp
next
  case (Inl err)
  then have c: "calculate_eta cfg today position rate sub = get_fallback_eta cfg today sub"
    by (simp add: calculate_eta_def)
  show ?thesis
  proof (cases "strptime sub")
    case p: (Inl e)
    then have "get_fallback_eta cfg today sub = Inr (placeholder_eta cfg sub)"
      by (simp add: get_fallback_eta_def fallback_body_def)
    with c Inl p show ?thesis by (simp add: placeholder_is_fallback)
  next
    case p: (Inr sub_date)
    define est where "est = max 30 (180 - (today - sub_date))"
    have est30: "30 \<le> est" by (simp add: est_def)
    show ?thesis
    proof (cases "today + est \<le> MAXORDINAL \<and> today + 60 \<le> MAXORDINAL")
      case True
      then have "est \<le> 999999999" using assms(1) by (simp add: MAXORDINAL_def)
      then have a1: "date_add today est = Inr (today + est)"
        using True est30 assms(1) by (simp add: date_add_def)
      have a2: "date_add today 60 = Inr (today + 60)"
        using True assms(1) by (simp add: date_add_def)
      have "get_fallback_eta cfg today sub =
          Inr \<lparr> estimated_approval_date = today + est, days_remaining = est,
                confidence_level = ''Low'', progress_percentage = 50,
                estimated_processing_date = today + 60,
                processing_rate = DEFAULT_PROCESSING_RATE cfg,
                position_in_queue = MOCK_POSITION cfg,
                submission_date = sub, is_fallback = True \<rparr>"
        using p a1 a2 by (simp add: get_fallback_eta_def fallback_body_def Let_def est_def)
      with c Inl p True show ?thesis by (simp add: est_def)
    next
      case False
      then have "isl (date_add today est) \<or> isl (date_add today 60)"
        by (auto simp: date_add_def)
      then have "isl (fallback_body cfg today sub)"
        using p by (auto simp: fallback_body_def Let_def est_def split: sum.splits)
      then have "get_fallback_eta cfg today sub = Inr (placeholder_eta cfg sub)"
        by (auto simp: get_fallback_eta_def split: sum.splits)
      moreover have "\<not> (today + max 30 (180 - (today - sub_date)) \<le> MAXORDINAL
          \<and> today + 60 \<le> MAXORDINAL)"
        using False by (simp add: est_def)
      ultimately show ?thesis using c Inl p by (auto simp: placeholder_is_fallback)
    qed
  qed
qed

theorem C7_never_raises_witness:
  "1 \<le> ymd2ord 2026 11 4 \<and> ymd2ord 2026 11 4 \<le> MAXORDINAL
   \<and> isl (calculate_eta_body default_config (ymd2ord 2026 11 4) 10000000 1 ''2026-11-02'')
   \<and> calculate_eta default_config (ymd2ord 2026 11 4) 10000000 1 ''2026-11-02'' =
       Inr \<lparr> estimated_approval_date = ymd2ord 2026 11 4 + 178, days_remaining = 178,
             confidence_level = ''Low'', progress_percentage = 50,
             estimated_processing_date = ymd2ord 2026 11 4 + 60, processing_rate = 50,
             position_in_queue = 1500, submission_date = ''2026-11-02'', is_fallback = True \<rparr>
   \<and> isl (calculate_eta_body default_config (ymd2ord 2026 11 4) 10000000 1 ''not a date'')
   \<and> calculate_eta default_config (ymd2ord 2026 11 4) 10000000 1 ''not a date'' =
       Inr (placeholder_eta default_config ''not a date'')"
proof -
  have t: "1 \<le> ymd2ord 2026 11 4" "ymd2ord 2026 11 4 \<le> MAXORDINAL" by code_simp+
  have b1: "isl (calculate_eta_body default_config (ymd2ord 2026 11 4) 10000000 1 ''2026-11-02'')"
    by code_simp
  have b2: "isl (calculate_eta_body default_config (ymd2ord 2026 11 4) 10000000 1 ''not a date'')"
    by code_simp
  have p1: "strptime ''2026-11-02'' = Inr (ymd2ord 2026 11 4 - 2)" by code_simp
  have p2: "strptime ''not a date'' = Inl ValueError" by code_simp
  have r: "ymd2ord 2026 11 4 + 178 \<le> MAXORDINAL \<and> ymd2ord 2026 11 4 + 60 \<le> MAXORDINAL"
    by code_simp
  have d: "DEFAULT_PROCESSING_RATE default_config = 50" "MOCK_POSITION default_config = 1500"
    by (simp_all add: default_config_def)
  from C7_never_raises [OF t, of default_config 10000000 1 "''2026-11-02''"] b1 p1 r d
  have 1: "calculate_eta default_config (ymd2ord 2026 11 4) 10000000 1 ''2026-11-02'' =
       Inr \<lparr> estimated_approval_date = ymd2ord 2026 11 4 + 178, days_remaining = 178,
             confidence_level = ''Low'', progress_percentage = 50,
             estimated_processing_date = ymd2ord 2026 11 4 + 60, processing_rate = 50,
             position_in_queue = 1500, submission_date = ''2026-11-02'', is_fallback = True \<rparr>"
    by auto
  from C7_never_raises [OF t, of default_config 10000000 1 "''not a date''"] b2 p2
  have 2: "calculate_eta default_config (ymd2ord 2026 11 4) 10000000 1 ''not a date'' =
       Inr (placeholder_eta default_config ''not a date'')"
    by auto
  from t b1 b2 1 2 show ?thesis by blast
qed

text \<open>
  C7 as stated fails: the submission date \<open>9999-12-31\<close> parses, the main computation
  fails (position \<open>10000000\<close>, rate 1), and the result is the placeholder with 120 days
  remaining, not \<open>max(30, 180 - days elapsed) = 2912315\<close>, because today plus that
  many days is beyond the calendar.
\<close>

theorem C7_overflow_counterexample:
  "isl (calculate_eta_body default_config (ymd2ord 2026 11 4) 10000000 1 ''9999-12-31'')
   \<and> strptime ''9999-12-31'' = Inr (ymd2ord 9999 12 31)
   \<and> max 30 (180 - (ymd2ord 2026 11 4 - ymd2ord 9999 12 31)) = 2912315
   \<and> map_sum id days_remaining
        (calculate_eta default_config (ymd2ord 2026 11 4) 10000000 1 ''9999-12-31'') = Inr 120"
  by code_simp

section \<open>Claims on the prefix tables and the accent colour\<close>

text \<open>
  C8 (as the code has it): the case number \<open>WAC1234567890\<close> has form type \<open>I-140\<close> and
  service center \<open>California Service Center\<close>. A case number of at least three
  characters whose three-character prefix is in neither table has its own prefix as
  form type and \<open>Unknown Service Center\<close> as service center; a case number shorter
  than three characters has form type \<open>Unknown\<close> and service center
  \<open>Unknown Service Center\<close>.
\<close>

theorem C8_prefix_lookup:
  "extract_form_type ''WAC1234567890'' = ''I-140''
   \<and> extract_service_center_from_case_number ''WAC1234567890'' = ''California Service Center''
   \<and> (if 3 \<le> length cn \<and> take 3 cn \<notin> fst ` set form_mapping
       then extract_form_type cn = take 3 cn else True)
   \<and> (if 3 \<le> length cn \<and> take 3 cn \<notin> fst ` set service_center_mapping
       then extract_service_center_from_case_number cn = ''Unknown Service Center'' else True)
   \<and> (if length cn < 3
       then extract_form_type cn = ''Unknown''
          \<and> extract_service_center_from_case_number cn = ''Unknown Service Center''
       else True)"
proof -
  have a: "extract_form_type ''WAC1234567890'' = ''I-140''"
    by (simp add: extract_form_type_def form_mapping_def)
  have b: "extract_service_center_from_case_number ''WAC1234567890'' = ''California Service Center''"
    by (simp add: extract_service_center_from_case_number_def service_center_mapping_def)
  have c: "extract_form_type cn = take 3 cn"
    if "3 \<le> length cn" "take 3 cn \<notin> fst ` set form_mapping"
  proof -
    from that(2) have "map_of form_mapping (take 3 cn) = None"
      by (simp add: map_of_eq_None_iff)
    with that(1) show ?thesis by (simp add: extract_form_type_def)
  qed
  have d: "extract_service_center_from_case_number cn = ''Unknown Service Center''"
    if "3 \<le> length cn" "take 3 cn \<notin> fst ` set service_center_mapping"
  proof -
    from that(2) have "map_of service_center_mapping (take 3 cn) = None"
      by (simp add: map_of_eq_None_iff)
    with that(1) show ?thesis by (simp add: extract_service_center_from_case_number_def)
  qed
  have e: "extract_form_type cn = ''Unknown''
          \<and> extract_service_center_from_case_number cn = ''Unknown Service Center''"
    if "length cn < 3"
    using that by (simp add: extract_form_type_def extract_service_center_from_case_number_def)
  from a b c d e show ?thesis by presburger
qed

theorem C8_prefix_lookup_witness:
  "extract_form_type ''EAC1234567890'' = ''EAC''
   \<and> extract_service_center_from_case_number ''EAC1234567890'' = ''Unknown Service Center''
   \<and> extract_form_type ''AB'' = ''Unknown''"
proof -
  have l: "3 \<le> length ''EAC1234567890''" by simp
  have f: "take 3 ''EAC1234567890'' \<notin> fst ` set form_mapping"
    by (simp add: form_mapping_def)
  have s: "take 3 ''EAC1234567890'' \<notin> fst ` set service_center_mapping"
    by (simp add: service_center_mapping_def)
  have t: "take 3 ''EAC1234567890'' = ''EAC''" by simp
  have 1: "extract_form_type ''EAC1234567890'' = ''EAC''"
    using C8_prefix_lookup [of "''EAC1234567890''"] l f t by presburger
  have 2: "extract_service_center_from_case_number ''EAC1234567890'' = ''Unknown Service Center''"
    using C8_prefix_lookup [of "''EAC1234567890''"] l s by presburger
  have "length ''AB'' < 3" by simp
  then have 3: "extract_form_type ''AB'' = ''Unknown''"
    using C8_prefix_lookup [of "''AB''"] by presburger
  from 1 2 3 show ?thesis by blast
qed

text \<open>
  C8 as stated fails: the prefix \<open>EAC\<close> is in neither table, and the lookups give
  \<open>EAC\<close> and \<open>Unknown Service Center\<close>, not \<open>Unknown\<close>.
\<close>

theorem C8_unknown_counterexample:
  "take 3 ''EAC1234567890'' \<notin> fst ` set form_mapping
   \<and> take 3 ''EAC1234567890'' \<notin> fst ` set service_center_mapping
   \<and> extract_form_type ''EAC1234567890'' \<noteq> ''Unknown''
   \<and> extract_service_center_from_case_number ''EAC1234567890'' \<noteq> ''Unknown''"
  by (simp add: extract_form_type_def form_mapping_def
      extract_service_center_from_case_number_def service_center_mapping_def)

text \<open>
  C9 (as the code has it): in the USCIS tracker's notifier the accent colour of a status
  string is decided on the lower-cased status by substring tests in this order:
  \<open>approved\<close> gives green, else \<open>denied\<close> red, else \<open>rfe\<close> or \<open>request for evidence\<close>
  orange, else \<open>pending\<close> yellow, else \<open>received\<close> purple, else blue. The PERM
  tracker's notifier tests \<open>approved\<close>, \<open>denied\<close> and \<open>pending\<close> only, and gives blue
  otherwise. The substring test is stated on the decomposition of the lower-cased
  status, not on the function \<open>contains\<close>.
\<close>

theorem C9_status_color:
  fixes s :: string
  defines "has \<equiv> (\<lambda>w. \<exists>ps ss. lower s = ps @ w @ ss)"
  shows "status_color_uscis s =
      (if has ''approved'' then ''#28a745''
       else if has ''denied'' then ''#dc3545''
       else if has ''rfe'' \<or> has ''request for evidence'' then ''#fd7e14''
       else if has ''pending'' then ''#ffc107''
       else if has ''received'' then ''#6f42c1''
       else ''#007bff'')
    \<and> status_color_perm s =
      (if has ''approved'' then ''#28a745''
       else if has ''denied'' then ''#dc3545''
       else if has ''pending'' then ''#ffc107''
       else ''#007bff'')"
  unfolding has_def status_color_uscis_def status_color_perm_def contains_iff [symmetric]
  by simp

text \<open>
  C9 as stated fails for the PERM tracker's notifier: \<open>Case Was Received\<close> contains
  \<open>received\<close> and none of the earlier words, and is rendered in the default blue.
\<close>

theorem C9_perm_counterexample:
  "contains ''received'' (lower ''Case Was Received'')
   \<and> \<not> contains ''approved'' (lower ''Case Was Received'')
   \<and> \<not> contains ''denied'' (lower ''Case Was Received'')
   \<and> \<not> contains ''rfe'' (lower ''Case Was Received'')
   \<and> \<not> contains ''request for evidence'' (lower ''Case Was Received'')
   \<and> \<not> contains ''pending'' (lower ''Case Was Received'')
   \<and> status_color_perm ''Case Was Received'' = ''#007bff''
   \<and> status_color_uscis ''Case Was Received'' = ''#6f42c1''"
  by code_simp

end
